theory Spec2Isabelle
  imports Complex_Main "HOL-Library.Word" "HOL-Library.FSet" "HOL-Library.Log_Nat"
begin

section \<open>Python values shared by the components\<close>

text \<open>
  Exceptions the modelled code can raise. Every one of them is a subclass of Python's
  \<open>Exception\<close>, so each \<open>except Exception\<close> clause of the source catches all of them.
\<close>

datatype py_exception =
    FileNotFoundError
  | FileExistsError
  | StructError
  | ValueError
  | URLError
  | IndexError
  | ComError string

text \<open>\<open>and_then m k\<close> runs \<open>k\<close> on the value of \<open>m\<close> unless \<open>m\<close> raised.\<close>

definition and_then :: "py_exception + 'a \<Rightarrow> ('a \<Rightarrow> py_exception + 'b) \<Rightarrow> py_exception + 'b" where
  "and_then m k = (case m of Inl e \<Rightarrow> Inl e | Inr x \<Rightarrow> k x)"

section \<open>ThumbnailExtractor: \<open>extract_psd_thumbnail\<close>\<close>

type_synonym byte = "8 word"
type_synonym bytes = "byte list"

text \<open>
  A binary file opened for reading, as the reads see it: the bytes not yet read and the
  position \<open>f.tell()\<close>. \<open>f.read(n)\<close> returns at most \<open>n\<close> bytes (fewer at the end
  of the file) and advances the position by what it returned; \<open>f.read(-1)\<close> returns
  everything up to the end of the file; a buffered reader refuses a size below \<open>-1\<close>
  with \<open>ValueError\<close>.
\<close>

record file_obj =
  remaining :: bytes
  pos :: nat

definition open_rb :: "bytes \<Rightarrow> file_obj" where
  "open_rb bs = \<lparr>remaining = bs, pos = 0\<rparr>"

definition f_tell :: "file_obj \<Rightarrow> nat" where
  "f_tell f = pos f"

definition f_read :: "int \<Rightarrow> file_obj \<Rightarrow> py_exception + (bytes \<times> file_obj)" where
  "f_read n f =
     (if n < - 1 then Inl ValueError
      else if n = - 1 then
        Inr (remaining f, \<lparr>remaining = [], pos = pos f + length (remaining f)\<rparr>)
      else
        Inr (take (nat n) (remaining f),
             \<lparr>remaining = drop (nat n) (remaining f),
              pos = pos f + length (take (nat n) (remaining f))\<rparr>))"

text \<open>
  \<open>struct.unpack\<close> of one big-endian unsigned integer of \<open>k\<close> bytes (\<open>'>H'\<close>: 2,
  \<open>'>I'\<close>: 4, \<open>'B'\<close>: 1). It raises \<open>struct.error\<close> unless it is given exactly \<open>k\<close> bytes.
\<close>

definition be_nat :: "bytes \<Rightarrow> nat" where
  "be_nat bs = foldl (\<lambda>a b. a * 256 + unat b) 0 bs"

definition struct_unpack :: "nat \<Rightarrow> bytes \<Rightarrow> py_exception + nat" where
  "struct_unpack k bs = (if length bs = k then Inr (be_nat bs) else Inl StructError)"

text \<open>\<open>struct.unpack(fmt, f.read(k))[0]\<close>, the idiom of the source.\<close>

definition read_uint :: "nat \<Rightarrow> file_obj \<Rightarrow> py_exception + (nat \<times> file_obj)" where
  "read_uint k f =
     and_then (f_read (int k) f) (\<lambda>(bs, f1).
     and_then (struct_unpack k bs) (\<lambda>v. Inr (v, f1)))"

definition sig_8BPS :: bytes where
  "sig_8BPS = [0x38, 0x42, 0x50, 0x53]"

definition sig_8BIM :: bytes where
  "sig_8BIM = [0x38, 0x42, 0x49, 0x4D]"

text \<open>What one pass through the body of the \<open>while\<close> loop does to the control flow.\<close>

datatype 'img step = Break | Return 'img | Continue file_obj

text \<open>
  The body of the loop over the image-resources block (source lines 77 to 111), in the
  three parts the source has: the fields before the data (lines 81 to 92), the data
  (lines 94 to 107) and the padding byte after it (lines 109 to 111).
  \<open>loadFromData\<close> is Qt's decoder (\<open>QImage.loadFromData\<close> followed by
  \<open>QPixmap.fromImage\<close>): \<open>None\<close> when the bytes do not decode.
\<close>

definition maybe_read :: "bool \<Rightarrow> int \<Rightarrow> file_obj \<Rightarrow> py_exception + (bytes \<times> file_obj)" where
  "maybe_read c n f = (if c then f_read n f else Inr ([], f))"

definition resource_fields :: "file_obj \<Rightarrow> py_exception + (nat \<times> nat \<times> file_obj)" where
  "resource_fields f =
     and_then (read_uint 2 f) (\<lambda>(resource_id, f).
     and_then (read_uint 1 f) (\<lambda>(name_length, f).
     and_then (maybe_read (name_length > 0) (int name_length) f) (\<lambda>(_, f).
     and_then (maybe_read ((name_length + 1) mod 2 \<noteq> 0) 1 f) (\<lambda>(_, f).
     and_then (read_uint 4 f) (\<lambda>(data_size, f).
     Inr (resource_id, data_size, f))))))"

definition resource_data ::
  "(bytes \<Rightarrow> 'img option) \<Rightarrow> nat \<Rightarrow> nat \<Rightarrow> file_obj \<Rightarrow> py_exception + ('img option \<times> file_obj)" where
  "resource_data loadFromData resource_id data_size f =
     (if resource_id \<in> {1033, 1036} then
        (if resource_id = 1036 then
           and_then (f_read 28 f) (\<lambda>(_, f).
           and_then (f_read (int data_size - 28) f) (\<lambda>(jpeg_data, f).
           Inr (loadFromData jpeg_data, f)))
         else Inr (None, f))
      else
        and_then (f_read (int data_size) f) (\<lambda>(_, f). Inr (None, f)))"

definition resource_step :: "(bytes \<Rightarrow> 'img option) \<Rightarrow> file_obj \<Rightarrow> py_exception + 'img step" where
  "resource_step loadFromData f =
     and_then (f_read 4 f) (\<lambda>(resource_signature, f).
     if resource_signature \<noteq> sig_8BIM then Inr Break
     else
     and_then (resource_fields f) (\<lambda>(resource_id, data_size, f).
     and_then (resource_data loadFromData resource_id data_size f) (\<lambda>(found, f).
     case found of
       Some pixmap \<Rightarrow> Inr (Return pixmap)
     | None \<Rightarrow>
         and_then (maybe_read (data_size mod 2 \<noteq> 0) 1 f) (\<lambda>(_, f).
         Inr (Continue f)))))"

lemma and_then_Inr:
  "and_then m k = Inr y \<longleftrightarrow> (\<exists>x. m = Inr x \<and> k x = Inr y)"
  by (cases m) (simp_all add: and_then_def)

lemma f_read_shape:
  assumes "f_read n f = Inr (bs, f')"
  shows "remaining f = bs @ remaining f' \<and> pos f' = pos f + length bs"
proof (cases "n = - 1")
  case True
  with assms show ?thesis by (auto simp: f_read_def)
next
  case False
  with assms have "bs = take (nat n) (remaining f)" "remaining f' = drop (nat n) (remaining f)"
    "pos f' = pos f + length bs"
    by (auto simp: f_read_def split: if_splits)
  then show ?thesis by simp
qed

lemma read_uint_shape:
  assumes "read_uint k f = Inr (v, f')"
  shows "\<exists>bs. length bs = k \<and> v = be_nat bs \<and> remaining f = bs @ remaining f' \<and> pos f' = pos f + k"
proof -
  from assms obtain bs where r: "f_read (int k) f = Inr (bs, f')" and u: "struct_unpack k bs = Inr v"
    by (auto simp: read_uint_def and_then_Inr)
  from u have "length bs = k" "v = be_nat bs"
    by (auto simp: struct_unpack_def split: if_splits)
  with f_read_shape [OF r] show ?thesis by auto
qed

lemma f_read_le:
  "f_read n a = Inr (bs, b) \<Longrightarrow> length (remaining b) \<le> length (remaining a)"
  using f_read_shape [of n a bs b] by simp

lemma maybe_read_le:
  "maybe_read c n a = Inr (bs, b) \<Longrightarrow> length (remaining b) \<le> length (remaining a)"
  by (auto simp: maybe_read_def dest: f_read_le split: if_splits)

lemma read_uint_le:
  "read_uint k a = Inr (v, b) \<Longrightarrow> length (remaining b) \<le> length (remaining a)"
  using read_uint_shape [of k a v b] by auto

lemma resource_fields_le:
  assumes "resource_fields a = Inr (rid, ds, b)"
  shows "length (remaining b) \<le> length (remaining a)"
proof -
  from assms obtain nl f1 f2 f3 f4 x3 x4 where
    "read_uint 2 a = Inr (rid, f1)" "read_uint 1 f1 = Inr (nl, f2)"
    "maybe_read (nl > 0) (int nl) f2 = Inr (x3, f3)"
    "maybe_read ((nl + 1) mod 2 \<noteq> 0) 1 f3 = Inr (x4, f4)"
    "read_uint 4 f4 = Inr (ds, b)"
    by (auto simp: resource_fields_def and_then_Inr)
  then show ?thesis
    by (meson read_uint_le maybe_read_le le_trans)
qed

lemma resource_data_le:
  assumes "resource_data loadFromData rid ds a = Inr (found, b)"
  shows "length (remaining b) \<le> length (remaining a)"
proof (cases "rid = 1036")
  case True
  with assms obtain x1 f1 x2 where "f_read 28 a = Inr (x1, f1)" "f_read (int ds - 28) f1 = Inr (x2, b)"
    by (auto simp: resource_data_def and_then_Inr)
  then show ?thesis by (meson f_read_le le_trans)
next
  case False
  with assms show ?thesis
    by (auto simp: resource_data_def and_then_Inr dest: f_read_le split: if_splits)
qed

lemma resource_step_Continue:
  assumes "resource_step loadFromData f = Inr (Continue f')"
  shows "length (remaining f') < length (remaining f)"
proof -
  from assms obtain f1 rid ds f2 f3 x4 where
    r1: "f_read 4 f = Inr (sig_8BIM, f1)" and
    r2: "resource_fields f1 = Inr (rid, ds, f2)" and
    r3: "resource_data loadFromData rid ds f2 = Inr (None, f3)" and
    r4: "maybe_read (ds mod 2 \<noteq> 0) 1 f3 = Inr (x4, f')"
    by (auto simp: resource_step_def and_then_Inr split: if_splits option.splits)
  have "length (remaining f1) < length (remaining f)"
    using f_read_shape [OF r1] by (simp add: sig_8BIM_def)
  with resource_fields_le [OF r2] resource_data_le [OF r3] maybe_read_le [OF r4]
  show ?thesis by linarith
qed

text \<open>
  The \<open>while f.tell() < resources_end\<close> loop. Each pass that continues has read the four
  signature bytes, so the unread part of the file shrinks and the loop ends.
\<close>

function resource_loop :: "(bytes \<Rightarrow> 'img option) \<Rightarrow> nat \<Rightarrow> file_obj \<Rightarrow> py_exception + 'img option" where
  "resource_loop loadFromData resources_end f =
     (if f_tell f < resources_end then
        (case resource_step loadFromData f of
           Inl e \<Rightarrow> Inl e
         | Inr Break \<Rightarrow> Inr None
         | Inr (Return pixmap) \<Rightarrow> Inr (Some pixmap)
         | Inr (Continue f') \<Rightarrow> resource_loop loadFromData resources_end f')
      else Inr None)"
  by pat_completeness auto
termination
  by (relation "measure (\<lambda>(loadFromData, resources_end, f). length (remaining f))")
    (auto dest: resource_step_Continue)

text \<open>
  The body of the \<open>try\<close> block (source lines 53 to 111). \<open>fs\<close> gives the bytes of
  each file that can be opened; \<open>open\<close> raises where there is none. The result is
  \<open>Inr (Some pixmap)\<close> for \<open>return QPixmap.fromImage(image)\<close>, \<open>Inr None\<close> for the
  \<open>return None\<close> of line 57 and for leaving the block at its end, \<open>Inl e\<close> for an
  exception.
\<close>

definition psd_try_body ::
  "(bytes \<Rightarrow> 'img option) \<Rightarrow> (string \<Rightarrow> bytes option) \<Rightarrow> string \<Rightarrow> py_exception + 'img option" where
  "psd_try_body loadFromData fs psd_path =
     (case fs psd_path of
        None \<Rightarrow> Inl FileNotFoundError
      | Some bs \<Rightarrow>
          and_then (f_read 4 (open_rb bs)) (\<lambda>(signature, f).
          if signature \<noteq> sig_8BPS then Inr None
          else
          and_then (read_uint 2 f) (\<lambda>(version, f).
          and_then (f_read 6 f) (\<lambda>(_, f).
          and_then (read_uint 2 f) (\<lambda>(channels, f).
          and_then (read_uint 4 f) (\<lambda>(height, f).
          and_then (read_uint 4 f) (\<lambda>(width, f).
          and_then (read_uint 2 f) (\<lambda>(depth, f).
          and_then (read_uint 2 f) (\<lambda>(color_mode, f).
          and_then (read_uint 4 f) (\<lambda>(color_mode_length, f).
          and_then (f_read (int color_mode_length) f) (\<lambda>(_, f).
          and_then (read_uint 4 f) (\<lambda>(resources_length, f).
          let resources_end = f_tell f + resources_length
          in resource_loop loadFromData resources_end f))))))))))))"

text \<open>
  \<open>extract_psd_thumbnail\<close>: the \<open>except Exception\<close> clause prints the exception and
  falls through to the final \<open>return None\<close>.
\<close>

definition extract_psd_thumbnail ::
  "(bytes \<Rightarrow> 'img option) \<Rightarrow> (string \<Rightarrow> bytes option) \<Rightarrow> string \<Rightarrow> 'img option" where
  "extract_psd_thumbnail loadFromData fs psd_path =
     (case psd_try_body loadFromData fs psd_path of
        Inl e \<Rightarrow> None
      | Inr result \<Rightarrow> result)"

subsection \<open>Sample containers\<close>

text \<open>
  A 26-byte header (signature, version 1, six reserved bytes, 3 channels, height 1,
  width 1, depth 8, colour mode 3) followed by an empty colour-mode-data block.
\<close>

definition psd_header :: bytes where
  "psd_header =
     sig_8BPS @ [0, 1] @ replicate 6 0 @ [0, 3] @ [0, 0, 0, 1] @ [0, 0, 0, 1] @ [0, 8] @ [0, 3]
     @ [0, 0, 0, 0]"

text \<open>
  A raw-preview resource (identifier 1033, empty name, four data bytes) and a
  JPEG-preview resource (identifier 1036, empty name, the 28-byte sub-header and two
  data bytes).
\<close>

definition raw_block :: bytes where
  "raw_block = sig_8BIM @ [0x04, 0x09] @ [0, 0] @ [0, 0, 0, 4] @ [1, 2, 3, 4]"

definition jpeg_block :: bytes where
  "jpeg_block = sig_8BIM @ [0x04, 0x0C] @ [0, 0] @ [0, 0, 0, 30] @ replicate 28 0 @ [0xFF, 0xD8]"

definition psd_raw_then_jpeg :: bytes where
  "psd_raw_then_jpeg = psd_header @ [0, 0, 0, 58] @ raw_block @ jpeg_block"

definition psd_jpeg_only :: bytes where
  "psd_jpeg_only = psd_header @ [0, 0, 0, 42] @ jpeg_block"

subsection \<open>Properties of the extractor\<close>

lemma f_read_nonneg:
  "0 \<le> n \<Longrightarrow> f_read n f =
     Inr (take (nat n) (remaining f),
          \<lparr>remaining = drop (nat n) (remaining f), pos = pos f + min (length (remaining f)) (nat n)\<rparr>)"
  by (simp add: f_read_def)

lemma psd_try_body_bad_signature:
  assumes "fs psd_path = Some bs" and "take 4 bs \<noteq> sig_8BPS"
  shows "psd_try_body loadFromData fs psd_path = Inr None"
  using assms by (simp add: psd_try_body_def f_read_nonneg open_rb_def and_then_def)

text \<open>
  Away from the two preview identifiers the data of a resource is read in one
  \<open>f.read(data_size)\<close>: exactly \<open>data_size\<close> bytes where the file has them.
\<close>

lemma resource_data_other:
  assumes "resource_id \<noteq> 1033" and "resource_id \<noteq> 1036"
    and "data_size \<le> length (remaining f)"
  shows "resource_data loadFromData resource_id data_size f =
     Inr (None, \<lparr>remaining = drop data_size (remaining f), pos = pos f + data_size\<rparr>)"
  using assms by (simp add: resource_data_def f_read_nonneg and_then_def min_def)

text \<open>
  C5. A file whose first four bytes are not the container signature gives \<open>None\<close>; a
  file that cannot be opened gives \<open>None\<close>; and whenever anything inside the \<open>try\<close>
  block raises (a truncated field, a refused read size), the function still returns,
  with \<open>None\<close>. The function is total: the loop over the resources always ends.
\<close>

theorem extract_psd_thumbnail_never_raises:
  "(fs psd_path = None \<longrightarrow> extract_psd_thumbnail loadFromData fs psd_path = None) \<and>
   (\<forall>bs. fs psd_path = Some bs \<and> take 4 bs \<noteq> sig_8BPS \<longrightarrow>
      extract_psd_thumbnail loadFromData fs psd_path = None) \<and>
   (\<forall>e. psd_try_body loadFromData fs psd_path = Inl e \<longrightarrow>
      extract_psd_thumbnail loadFromData fs psd_path = None)"
proof (intro conjI allI impI)
  assume "fs psd_path = None"
  then show "extract_psd_thumbnail loadFromData fs psd_path = None"
    by (simp add: extract_psd_thumbnail_def psd_try_body_def)
next
  fix bs
  assume "fs psd_path = Some bs \<and> take 4 bs \<noteq> sig_8BPS"
  then have "psd_try_body loadFromData fs psd_path = Inr None"
    by (simp add: psd_try_body_bad_signature)
  then show "extract_psd_thumbnail loadFromData fs psd_path = None"
    by (simp add: extract_psd_thumbnail_def)
next
  fix e
  assume "psd_try_body loadFromData fs psd_path = Inl e"
  then show "extract_psd_thumbnail loadFromData fs psd_path = None"
    by (simp add: extract_psd_thumbnail_def)
qed

theorem extract_psd_thumbnail_never_raises_witness:
  "extract_psd_thumbnail Some Map.empty ''a.psd'' = (None :: bytes option) \<and>
   extract_psd_thumbnail Some [''a.psd'' \<mapsto> [0x47, 0x49, 0x46, 0x38, 0x39]] ''a.psd'' = (None :: bytes option) \<and>
   psd_try_body Some [''a.psd'' \<mapsto> sig_8BPS @ [0]] ''a.psd'' = (Inl StructError :: py_exception + bytes option) \<and>
   extract_psd_thumbnail Some [''a.psd'' \<mapsto> sig_8BPS @ [0]] ''a.psd'' = (None :: bytes option)"
proof -
  have a: "(Map.empty :: string \<Rightarrow> bytes option) ''a.psd'' = None"
    by simp
  have b: "[''a.psd'' \<mapsto> [0x47, 0x49, 0x46, 0x38, 0x39 :: byte]] ''a.psd'' = Some [0x47, 0x49, 0x46, 0x38, 0x39]
      \<and> take 4 [0x47, 0x49, 0x46, 0x38, 0x39 :: byte] \<noteq> sig_8BPS"
    by (simp add: sig_8BPS_def)
  have c: "psd_try_body Some [''a.psd'' \<mapsto> sig_8BPS @ [0]] ''a.psd'' = (Inl StructError :: py_exception + bytes option)"
    by code_simp
  from a b c
    extract_psd_thumbnail_never_raises [of Map.empty "''a.psd''" "Some :: bytes \<Rightarrow> bytes option"]
    extract_psd_thumbnail_never_raises [of "[''a.psd'' \<mapsto> [0x47, 0x49, 0x46, 0x38, 0x39]]" "''a.psd''" "Some :: bytes \<Rightarrow> bytes option"]
    extract_psd_thumbnail_never_raises [of "[''a.psd'' \<mapsto> sig_8BPS @ [0]]" "''a.psd''" "Some :: bytes \<Rightarrow> bytes option"]
  show ?thesis by blast
qed

text \<open>
  C1. The data of a raw-preview resource (identifier 1033) is not read at all: the
  branch for the two preview identifiers reads data only for 1036, and the
  \<open>f.read(data_size)\<close> of the \<open>else\<close> branch is not reached. The next pass of the loop
  therefore reads the resource's own data as a block signature. In the sample container
  a JPEG preview follows the raw preview; the loop stops on the raw data and the preview
  is not found, although the same JPEG block alone is.
\<close>

theorem raw_preview_data_not_consumed:
  "resource_data loadFromData 1033 data_size f = Inr (None, f) \<and>
   resource_step Some \<lparr>remaining = raw_block @ jpeg_block, pos = 34\<rparr> =
     Inr (Continue \<lparr>remaining = [1, 2, 3, 4] @ jpeg_block, pos = 46\<rparr>) \<and>
   extract_psd_thumbnail Some [''a.psd'' \<mapsto> psd_raw_then_jpeg] ''a.psd'' = None \<and>
   extract_psd_thumbnail Some [''a.psd'' \<mapsto> psd_jpeg_only] ''a.psd'' = Some [0xFF, 0xD8]"
proof (intro conjI)
  show "resource_data loadFromData 1033 data_size f = Inr (None, f)"
    by (simp add: resource_data_def)
  show "resource_step Some \<lparr>remaining = raw_block @ jpeg_block, pos = 34\<rparr> =
     Inr (Continue \<lparr>remaining = [1, 2, 3, 4] @ jpeg_block, pos = 46\<rparr>)"
    by code_simp
  show "extract_psd_thumbnail Some [''a.psd'' \<mapsto> psd_raw_then_jpeg] ''a.psd'' = None"
    by code_simp
  show "extract_psd_thumbnail Some [''a.psd'' \<mapsto> psd_jpeg_only] ''a.psd'' = Some [0xFF, 0xD8]"
    by code_simp
qed

section \<open>UniqueNamer: \<open>get_unique_filepath\<close>\<close>

subsection \<open>The library functions it calls\<close>

text \<open>
  The program runs on Windows (it drives Photoshop through \<open>win32com\<close>), where \<open>os.path\<close>
  is the module \<open>ntpath\<close>. Its functions are taken from the standard library of
  CPython 3.8 to 3.10; later releases differ in how they read a path that starts with two
  separators. A path has two separators, the backslash \<open>sep\<close> and the slash \<open>altsep\<close>,
  and may start with a drive.
\<close>

definition sep :: char where
  "sep = CHR 0x5C"

definition altsep :: char where
  "altsep = CHR ''/''"

definition seps :: string where
  "seps = [sep, altsep]"

text \<open>
  The string methods the library uses: \<open>str.rfind\<close> and \<open>str.find\<close> of one character
  (\<open>-1\<close> when it does not occur; \<open>find\<close> from a start index), \<open>str.rstrip\<close> of a set of
  characters, \<open>str.replace\<close> of one character by another, and \<open>str.lower\<close>, here on the
  letters A to Z.
\<close>

definition rfind :: "char \<Rightarrow> string \<Rightarrow> int" where
  "rfind c p = int (length (dropWhile (\<lambda>x. x \<noteq> c) (rev p))) - 1"

definition find_from :: "char \<Rightarrow> nat \<Rightarrow> string \<Rightarrow> int" where
  "find_from c start s =
     (let rest = drop start s
      in if c \<in> set rest then int (start + length (takeWhile (\<lambda>x. x \<noteq> c) rest)) else - 1)"

definition rstrip :: "string \<Rightarrow> string \<Rightarrow> string" where
  "rstrip chars s = rev (dropWhile (\<lambda>x. x \<in> set chars) (rev s))"

definition replace_char :: "char \<Rightarrow> char \<Rightarrow> string \<Rightarrow> string" where
  "replace_char old new s = map (\<lambda>c. if c = old then new else c) s"

definition lower_char :: "char \<Rightarrow> char" where
  "lower_char c = (let n = (of_char c :: nat) in if 65 \<le> n \<and> n \<le> 90 then char_of (n + 32) else c)"

definition lower :: "string \<Rightarrow> string" where
  "lower s = map lower_char s"

text \<open>
  \<open>ntpath.splitdrive\<close>: the drive is a UNC mount point (two separators,
  then two components), or a letter and a colon, or nothing.
\<close>

definition os_path_splitdrive :: "string \<Rightarrow> string \<times> string" where
  "os_path_splitdrive p =
     (if length p \<ge> 2 then
        let normp = replace_char altsep sep p
        in if take 2 normp = [sep, sep] \<and> take 1 (drop 2 normp) \<noteq> [sep] then
             let index = find_from sep 2 normp
             in if index = - 1 then ([], p)
                else
                  let index2 = find_from sep (nat (index + 1)) normp
                  in if index2 = index + 1 then ([], p)
                     else
                       let index2 = (if index2 = - 1 then int (length p) else index2)
                       in (take (nat index2) p, drop (nat index2) p)
           else if take 1 (drop 1 normp) = '':'' then (take 2 p, drop 2 p)
           else ([], p)
      else ([], p))"

text \<open>
  \<open>ntpath.split\<close>: after the drive, the tail is what follows the last separator; the
  head loses its trailing separators unless it is nothing but separators.
  \<open>basename\<close> and \<open>dirname\<close> are its two parts.
\<close>

definition os_path_split :: "string \<Rightarrow> string \<times> string" where
  "os_path_split p0 =
     (let (d, p) = os_path_splitdrive p0;
          i = length (dropWhile (\<lambda>c. c \<notin> set seps) (rev p));
          head = take i p;
          tail = drop i p;
          head = (if rstrip seps head \<noteq> [] then rstrip seps head else head)
      in (d @ head, tail))"

definition os_path_basename :: "string \<Rightarrow> string" where
  "os_path_basename p = snd (os_path_split p)"

definition os_path_dirname :: "string \<Rightarrow> string" where
  "os_path_dirname p = fst (os_path_split p)"

text \<open>
  \<open>ntpath.splitext\<close> (\<open>genericpath._splitext\<close>): the extension starts at the last dot of
  the last component, unless only dots precede it there.
\<close>

definition os_path_splitext :: "string \<Rightarrow> string \<times> string" where
  "os_path_splitext p =
     (let sepIndex = max (rfind sep p) (rfind altsep p);
          dotIndex = rfind CHR ''.'' p
      in if dotIndex > sepIndex \<and>
            list_ex (\<lambda>c. c \<noteq> CHR ''.'') (take (nat dotIndex - nat (sepIndex + 1)) (drop (nat (sepIndex + 1)) p))
         then (take (nat dotIndex) p, drop (nat dotIndex) p)
         else (p, []))"

text \<open>
  \<open>ntpath.join\<close> of two parts. A second part that starts with a separator, or that has
  a drive other than the one of the first part, makes the result restart there;
  otherwise its path is put after the path of the first part, with a backslash between
  them where the first does not end with a separator. \<open>join_result\<close> is the end of the
  function: a separator is put between a UNC drive and a relative path.
\<close>

definition join_result :: "string \<Rightarrow> string \<Rightarrow> string" where
  "join_result result_drive result_path =
     (if result_path \<noteq> [] \<and> hd result_path \<notin> set seps \<and>
         result_drive \<noteq> [] \<and> last result_drive \<noteq> CHR '':''
      then result_drive @ [sep] @ result_path
      else result_drive @ result_path)"

definition os_path_join :: "string \<Rightarrow> string \<Rightarrow> string" where
  "os_path_join path p =
     (let (result_drive, result_path) = os_path_splitdrive path;
          (p_drive, p_path) = os_path_splitdrive p
      in if p_path \<noteq> [] \<and> hd p_path \<in> set seps then
           join_result (if p_drive \<noteq> [] \<or> result_drive = [] then p_drive else result_drive) p_path
         else if p_drive \<noteq> [] \<and> p_drive \<noteq> result_drive \<and> lower p_drive \<noteq> lower result_drive then
           join_result p_drive p_path
         else
           let result_drive = (if p_drive \<noteq> [] \<and> p_drive \<noteq> result_drive then p_drive else result_drive);
               result_path = (if result_path \<noteq> [] \<and> last result_path \<notin> set seps
                              then result_path @ [sep] else result_path);
               result_path = result_path @ p_path
           in join_result result_drive result_path)"

text \<open>The decimal text an f-string gives a non-negative integer.\<close>

fun str_nat :: "nat \<Rightarrow> string" where
  "str_nat n = (if n < 10 then [char_of (48 + n)] else str_nat (n div 10) @ [char_of (48 + n mod 10)])"

declare str_nat.simps [simp del]


subsection \<open>The function\<close>

text \<open>
  The disk is the finite set of the paths that exist; \<open>os.path.exists\<close> is membership.
  The function only asks the disk, it creates nothing.
\<close>

definition os_path_exists :: "string fset \<Rightarrow> string \<Rightarrow> bool" where
  "os_path_exists disk p = (p |\<in>| disk)"

definition candidate :: "string \<Rightarrow> string \<Rightarrow> string \<Rightarrow> nat \<Rightarrow> string" where
  "candidate directory name ext counter =
     (let new_filename = name @ ''_'' @ str_nat counter @ ext
      in os_path_join directory new_filename)"

lemma splitdrive_append: "os_path_splitdrive p = (d, r) \<Longrightarrow> d @ r = p"
  by (auto simp: os_path_splitdrive_def Let_def split: if_splits)

lemma join_result_length: "length d + length r \<le> length (join_result d r)"
  by (simp add: join_result_def)

lemma os_path_join_length: "length p \<le> length (os_path_join path p)"
proof -
  obtain rd rp where a: "os_path_splitdrive path = (rd, rp)"
    by (cases "os_path_splitdrive path")
  obtain pd pp where b: "os_path_splitdrive p = (pd, pp)"
    by (cases "os_path_splitdrive p")
  from splitdrive_append [OF b] have l: "length p = length pd + length pp"
    by auto
  show ?thesis
    unfolding os_path_join_def a b prod.case Let_def l
    using join_result_length [of pd pp] join_result_length [of rd pp]
      join_result_length [of pd "(if rp \<noteq> [] \<and> last rp \<notin> set seps then rp @ [sep] else rp) @ pp"]
      join_result_length [of rd "(if rp \<noteq> [] \<and> last rp \<notin> set seps then rp @ [sep] else rp) @ pp"]
    by (auto split: if_splits)
qed

lemma str_nat_bound: "n < 10 ^ length (str_nat n)"
proof (induction n rule: str_nat.induct)
  case (1 n)
  show ?case
  proof (cases "n < 10")
    case True
    then show ?thesis by (simp add: str_nat.simps [of n])
  next
    case False
    then have l: "length (str_nat n) = Suc (length (str_nat (n div 10)))"
      by (simp add: str_nat.simps [of n])
    from 1 [OF False] have "n div 10 < 10 ^ length (str_nat (n div 10))" .
    then have "n < 10 * 10 ^ length (str_nat (n div 10))"
      by (simp add: div_less_iff_less_mult mult.commute)
    then show ?thesis by (simp add: l)
  qed
qed

lemma candidate_bound: "candidate directory name ext k = p \<Longrightarrow> k < 10 ^ length p"
proof -
  assume c: "candidate directory name ext k = p"
  have "length (str_nat k) \<le> length (name @ ''_'' @ str_nat k @ ext)"
    by simp
  also have "\<dots> \<le> length p"
    using os_path_join_length [of "name @ ''_'' @ str_nat k @ ext" directory] c
    by (simp add: candidate_def)
  finally have "(10::nat) ^ length (str_nat k) \<le> 10 ^ length p"
    by (intro power_increasing) simp_all
  with str_nat_bound [of k] show ?thesis
    by (rule less_le_trans)
qed

lemma finite_taken: "finite {k. candidate directory name ext k |\<in>| disk}"
proof -
  have "{k. candidate directory name ext k |\<in>| disk} \<subseteq> (\<Union>p\<in>fset disk. {k::nat. k < 10 ^ length p})"
    using candidate_bound by auto
  moreover have "finite (\<Union>p\<in>fset disk. {k::nat. k < 10 ^ length p})"
    by simp
  ultimately show ?thesis by (rule finite_subset)
qed

text \<open>
  The \<open>while True\<close> loop of lines 39 to 44. A joined path is at least as long as its
  second part, so the candidates grow with the counter and only finitely many of them
  are among the paths of the disk: the number of counters from the current one on whose
  candidate exists goes down in every pass, and the loop ends.
\<close>

function unique_loop :: "string fset \<Rightarrow> string \<Rightarrow> string \<Rightarrow> string \<Rightarrow> nat \<Rightarrow> string" where
  "unique_loop disk directory name ext counter =
     (let new_filename = name @ ''_'' @ str_nat counter @ ext;
          new_filepath = os_path_join directory new_filename
      in if \<not> os_path_exists disk new_filepath then new_filepath
         else unique_loop disk directory name ext (counter + 1))"
  by pat_completeness auto
termination
proof (relation "measure (\<lambda>(disk, directory, name, ext, counter).
    card {k. counter \<le> k \<and> candidate directory name ext k |\<in>| disk})", goal_cases)
  case 1
  show ?case by simp
next
  case (2 disk directory name ext counter new_filename new_filepath)
  then have c: "candidate directory name ext counter |\<in>| disk"
    by (simp add: candidate_def os_path_exists_def)
  let ?S = "\<lambda>c. {k. c \<le> k \<and> candidate directory name ext k |\<in>| disk}"
  have fin: "finite (?S counter)"
    by (rule finite_subset [OF _ finite_taken [of directory name ext disk]]) auto
  have "counter \<in> ?S counter" "counter \<notin> ?S (counter + 1)" "?S (counter + 1) \<subseteq> ?S counter"
    using c by auto
  then have "?S (counter + 1) \<subset> ?S counter"
    by blast
  then have "card (?S (counter + 1)) < card (?S counter)"
    using fin by (rule psubset_card_mono [rotated])
  then show ?case by simp
qed

definition get_unique_filepath :: "string fset \<Rightarrow> string \<Rightarrow> string" where
  "get_unique_filepath disk filepath =
     (if \<not> os_path_exists disk filepath then filepath
      else
        let directory = os_path_dirname filepath;
            filename = os_path_basename filepath;
            (name, ext) = os_path_splitext filename;
            counter = 1
        in unique_loop disk directory name ext counter)"


declare unique_loop.simps [simp del]


subsection \<open>Facts about the path functions\<close>














lemma rstrip_prefix: "\<exists>t. a = rstrip chars a @ t \<and> set t \<subseteq> set chars"
proof -
  have "rev a = takeWhile (\<lambda>x. x \<in> set chars) (rev a) @ dropWhile (\<lambda>x. x \<in> set chars) (rev a)"
    by simp
  then have "a = rev (dropWhile (\<lambda>x. x \<in> set chars) (rev a)) @ rev (takeWhile (\<lambda>x. x \<in> set chars) (rev a))"
    by (metis rev_append rev_rev_ident)
  moreover have "set (rev (takeWhile (\<lambda>x. x \<in> set chars) (rev a))) \<subseteq> set chars"
    by (auto dest: set_takeWhileD)
  ultimately show ?thesis
    unfolding rstrip_def by blast
qed

lemma rstrip_Nil: "rstrip chars a = [] \<Longrightarrow> set a \<subseteq> set chars"
  using rstrip_prefix [of a chars] by auto
































subsection \<open>The claims about the namer\<close>









section \<open>RenderPipeline: \<open>Worker.run\<close>\<close>

subsection \<open>Python floats\<close>

text \<open>
  The progress value is \<open>int((i / total) * 100)\<close>: a true division of two integers, a
  float multiplication and a truncation. A Python float is an IEEE 754 double; both
  operations give the double nearest to the exact result, ties going to the even
  significand. A double is kept here as the rational number it stands for.
  \<open>float_round x\<close> is the nearest double of a positive \<open>x\<close>: with \<open>2 ^ e \<le> x < 2 ^ (e + 1)\<close>
  the doubles around \<open>x\<close> are the multiples of \<open>2 ^ (e - 52)\<close>. The range of the exponent
  is not modelled: the quotients and products here lie between \<open>1 / total\<close> and 100.
\<close>

definition round_half_even :: "rat \<Rightarrow> int" where
  "round_half_even q =
     (let f = \<lfloor>q\<rfloor>; d = q - of_int f
      in if d < 1 / 2 then f else if d > 1 / 2 then f + 1 else if even f then f else f + 1)"

text \<open>\<open>ilog2 x\<close> is the \<open>e\<close> with \<open>2 ^ e \<le> x < 2 ^ (e + 1)\<close>, for a positive \<open>x\<close>.\<close>

definition ilog2 :: "rat \<Rightarrow> int" where
  "ilog2 x =
     (let (a, b) = quotient_of x; e0 = bitlen a - bitlen b
      in if 2 powi e0 \<le> x then e0 else e0 - 1)"

definition float_round :: "rat \<Rightarrow> rat" where
  "float_round x =
     (if x \<le> 0 then 0
      else let ulp = 2 powi (ilog2 x - 52)
           in of_int (round_half_even (x / ulp)) * ulp)"

definition float_truediv :: "int \<Rightarrow> int \<Rightarrow> rat" where
  "float_truediv a b = float_round (of_int a / of_int b)"

definition float_mul :: "rat \<Rightarrow> rat \<Rightarrow> rat" where
  "float_mul x y = float_round (x * y)"

text \<open>\<open>int(x)\<close> of a float truncates towards zero.\<close>

definition int_of_float :: "rat \<Rightarrow> int" where
  "int_of_float x = (if 0 \<le> x then \<lfloor>x\<rfloor> else \<lceil>x\<rceil>)"

text \<open>\<open>int((i / total) * 100)\<close>, source line 764.\<close>

definition progress_percent :: "nat \<Rightarrow> nat \<Rightarrow> int" where
  "progress_percent i total_n = int_of_float (float_mul (float_truediv (int i) (int total_n)) 100)"

subsection \<open>The worker\<close>

text \<open>
  The signals of the worker thread: \<open>progress(int)\<close>, \<open>log(str)\<close>, \<open>finished()\<close> and
  \<open>error(str)\<close>. The window shows COMPLETE on \<open>finished\<close> and ERROR on \<open>error\<close>.
\<close>

datatype signal = Progress int | Log string | Finished | Error string

record job =
  psds :: "string list"
  art :: string
  out_dir :: string

text \<open>
  Photoshop behind COM, the external renderer. \<open>'ps\<close> is whatever state that side has
  (installed or not, running, its open documents). Each operation may raise and may
  change that state; running the script may also change the disk. \<open>DoJavaScript\<close> is
  given the three paths from which \<open>build_jsx\<close> makes the script.
\<close>

record 'ps photoshop =
  Dispatch :: "'ps \<Rightarrow> py_exception option \<times> 'ps"
  SetVisible :: "'ps \<Rightarrow> py_exception option \<times> 'ps"
  DoJavaScript :: "string \<times> string \<times> string \<Rightarrow> 'ps \<Rightarrow> string fset \<Rightarrow> py_exception option \<times> 'ps \<times> string fset"

text \<open>
  What a run has done so far: the signals emitted, the calls made (every
  \<open>win32com.client.Dispatch\<close> and every entry into \<open>render\<close>), the state of the
  Photoshop side and the disk.
\<close>

datatype call = DispatchCall | RenderCall string string string

record 'ps worker_state =
  signals :: "signal list"
  calls :: "call list"
  ps_state :: 'ps
  on_disk :: "string fset"

definition emit :: "signal \<Rightarrow> 'ps worker_state \<Rightarrow> 'ps worker_state" where
  "emit s st = st\<lparr>signals := signals st @ [s]\<rparr>"

definition emit_all :: "signal list \<Rightarrow> 'ps worker_state \<Rightarrow> 'ps worker_state" where
  "emit_all ss st = foldl (\<lambda>st s. emit s st) st ss"

definition dispatch :: "'ps photoshop \<Rightarrow> 'ps worker_state \<Rightarrow> py_exception option \<times> 'ps worker_state" where
  "dispatch com st =
     (case Dispatch com (ps_state st) of
        (exc, ps1) \<Rightarrow> (exc, st\<lparr>calls := calls st @ [DispatchCall], ps_state := ps1\<rparr>))"

text \<open>\<open>render\<close>, source lines 705 to 709. The first exception ends it.\<close>

definition render ::
  "'ps photoshop \<Rightarrow> string \<Rightarrow> string \<Rightarrow> string \<Rightarrow> 'ps worker_state \<Rightarrow> py_exception option \<times> 'ps worker_state" where
  "render com psd art_path out st =
     (case dispatch com (st\<lparr>calls := calls st @ [RenderCall psd art_path out]\<rparr>) of
        (Some e, st) \<Rightarrow> (Some e, st)
      | (None, st) \<Rightarrow>
          (case SetVisible com (ps_state st) of
             (Some e, ps2) \<Rightarrow> (Some e, st\<lparr>ps_state := ps2\<rparr>)
           | (None, ps2) \<Rightarrow>
               (case DoJavaScript com (psd, art_path, out) ps2 (on_disk st) of
                  (exc, ps3, disk3) \<Rightarrow> (exc, st\<lparr>ps_state := ps3, on_disk := disk3\<rparr>))))"

text \<open>\<open>str(e)\<close>.\<close>

fun str_exception :: "py_exception \<Rightarrow> string" where
  "str_exception (ComError msg) = msg"
| "str_exception FileNotFoundError = ''FileNotFoundError''"
| "str_exception FileExistsError = ''FileExistsError''"
| "str_exception StructError = ''struct.error''"
| "str_exception ValueError = ''ValueError''"
| "str_exception URLError = ''URLError''"
| "str_exception IndexError = ''list index out of range''"

text \<open>The cross mark and the check mark of the log lines, in UTF-8.\<close>

definition cross_mark :: string where
  "cross_mark = [CHR 0xE2, CHR 0x9D, CHR 0x8C]"

definition check_mark :: string where
  "check_mark = [CHR 0xE2, CHR 0x9C, CHR 0x93]"

text \<open>The f-strings of the log lines, source lines 749, 759 and 763.\<close>

definition detected_line :: "nat \<Rightarrow> string" where
  "detected_line total_n =
     check_mark @ '' Photoshop detected - Processing '' @ str_nat total_n @ '' mockup(s)...''"

definition processing_line :: "string \<Rightarrow> string" where
  "processing_line final_name = ''Processing: '' @ final_name"

definition error_line :: "string \<Rightarrow> py_exception \<Rightarrow> string" where
  "error_line final_name e =
     cross_mark @ '' Error processing '' @ final_name @ '': '' @ str_exception e"

text \<open>
  One pass of the \<open>for\<close> loop, source lines 752 to 764, for the \<open>i\<close>-th template. Beside
  the new state it gives what the pass did: the output path and the exception caught,
  if any. The source keeps neither; they only name the outcome of the pass.
\<close>

definition run_item ::
  "'ps photoshop \<Rightarrow> job \<Rightarrow> nat \<Rightarrow> nat \<Rightarrow> string \<Rightarrow> 'ps worker_state \<Rightarrow> (string \<times> py_exception option) \<times> 'ps worker_state" where
  "run_item com jb total_n i psd st =
     (let name = fst (os_path_splitext (os_path_basename psd)) @ ''.jpg'';
          out = os_path_join (out_dir jb) name;
          out = get_unique_filepath (on_disk st) out;
          final_name = os_path_basename out;
          st = emit (Log (processing_line final_name)) st;
          (exc, st) = render com psd (art jb) out st;
          st = (case exc of
                  Some e \<Rightarrow> emit (Log (error_line final_name e)) st
                | None \<Rightarrow> st);
          st = emit (Progress (progress_percent i total_n)) st
      in ((out, exc), st))"

fun run_items ::
  "'ps photoshop \<Rightarrow> job \<Rightarrow> nat \<Rightarrow> nat \<Rightarrow> string list \<Rightarrow> 'ps worker_state \<Rightarrow> (string \<times> py_exception option) list \<times> 'ps worker_state" where
  "run_items com jb total_n i [] st = ([], st)"
| "run_items com jb total_n i (psd # rest) st =
     (case run_item com jb total_n i psd st of
        (r, st) \<Rightarrow> (case run_items com jb total_n (i + 1) rest st of (rs, st) \<Rightarrow> (r # rs, st)))"

text \<open>The lines logged when Photoshop cannot be reached, source lines 733 to 743.\<close>

definition not_found_lines :: "py_exception \<Rightarrow> string list" where
  "not_found_lines e =
     [replicate 60 CHR ''='',
      cross_mark @ '' ERROR: Adobe Photoshop not found!'',
      replicate 60 CHR ''='',
      [],
      ''This application requires Adobe Photoshop to be installed'',
      ''on your computer to process mockups.'',
      [],
      ''Please install Adobe Photoshop and try again.'',
      [],
      ''Technical error: '' @ str_exception e,
      replicate 60 CHR ''='']"

text \<open>
  \<open>Worker.run\<close>, source lines 727 to 765: the check for Photoshop, and after it either
  the error report and \<open>return\<close>, or the loop over the templates and \<open>finished\<close>.
\<close>

definition run :: "'ps photoshop \<Rightarrow> job \<Rightarrow> 'ps worker_state \<Rightarrow> (string \<times> py_exception option) list \<times> 'ps worker_state" where
  "run com jb st =
     (case dispatch com st of
        (Some e, st) \<Rightarrow>
          ([], emit_all (map Log (not_found_lines e) @ [Error ''Photoshop not found'']) st)
      | (None, st) \<Rightarrow>
          (let total_n = length (psds jb);
               st = emit (Log (detected_line total_n)) st;
               (results, st) = run_items com jb total_n 1 (psds jb) st
           in (results, emit Finished st)))"

subsection \<open>What a run emits and calls\<close>

text \<open>The signals of one pass of the loop, given what the pass did.\<close>

definition item_signals :: "nat \<Rightarrow> nat \<times> string \<times> py_exception option \<Rightarrow> signal list" where
  "item_signals total_n r =
     (case r of (i, out, exc) \<Rightarrow>
        [Log (processing_line (os_path_basename out))]
        @ (case exc of
             Some e \<Rightarrow> [Log (error_line (os_path_basename out) e)]
           | None \<Rightarrow> [])
        @ [Progress (progress_percent i total_n)])"

definition item_calls :: "string \<Rightarrow> string \<times> string \<times> py_exception option \<Rightarrow> call list" where
  "item_calls art_path r = (case r of (psd, out, exc) \<Rightarrow> [RenderCall psd art_path out, DispatchCall])"

fun progress_values :: "signal list \<Rightarrow> int list" where
  "progress_values [] = []"
| "progress_values (Progress p # ss) = p # progress_values ss"
| "progress_values (s # ss) = progress_values ss"

lemma emit_all_signals: "emit_all ss st = st\<lparr>signals := signals st @ ss\<rparr>"
  unfolding emit_all_def
  by (induction ss arbitrary: st) (simp_all add: emit_def)

lemma dispatch_eq:
  "dispatch com st = (fst (Dispatch com (ps_state st)),
     st\<lparr>calls := calls st @ [DispatchCall], ps_state := snd (Dispatch com (ps_state st))\<rparr>)"
  by (simp add: dispatch_def split: prod.splits)

lemma render_traces:
  assumes "render com psd art_path out st = (exc, st')"
  shows "signals st' = signals st \<and> calls st' = calls st @ [RenderCall psd art_path out, DispatchCall]"
  using assms
  by (auto simp: render_def dispatch_eq split: prod.splits option.splits)

lemma run_item_traces:
  assumes "run_item com jb total_n i psd st = ((out, exc), st')"
  shows "signals st' = signals st @ item_signals total_n (i, out, exc) \<and>
     calls st' = calls st @ item_calls (art jb) (psd, out, exc)"
proof -
  define name where "name = fst (os_path_splitext (os_path_basename psd)) @ ''.jpg''"
  define o1 where "o1 = get_unique_filepath (on_disk st) (os_path_join (out_dir jb) name)"
  define st1 where "st1 = emit (Log (processing_line (os_path_basename o1))) st"
  obtain e st2 where r: "render com psd (art jb) o1 st1 = (e, st2)"
    by (cases "render com psd (art jb) o1 st1")
  have d: "on_disk st1 = on_disk st" "signals st1 = signals st @ [Log (processing_line (os_path_basename o1))]"
    "calls st1 = calls st"
    by (simp_all add: st1_def emit_def)
  from assms r have "out = o1" "exc = e"
    unfolding run_item_def Let_def name_def [symmetric] o1_def [symmetric] st1_def [symmetric]
    by simp_all
  moreover from assms r have "st' = emit (Progress (progress_percent i total_n))
      (case e of Some x \<Rightarrow> emit (Log (error_line (os_path_basename o1) x)) st2 | None \<Rightarrow> st2)"
    unfolding run_item_def Let_def name_def [symmetric] o1_def [symmetric] st1_def [symmetric]
    by auto
  ultimately show ?thesis
    using render_traces [OF r] d
    by (cases e) (simp_all add: emit_def item_signals_def item_calls_def)
qed

lemma run_items_traces:
  assumes "run_items com jb total_n i xs st = (rs, st')"
  shows "length rs = length xs \<and>
     signals st' = signals st @ concat (map (item_signals total_n) (zip [i..<i + length xs] rs)) \<and>
     calls st' = calls st @ concat (map (item_calls (art jb)) (zip xs rs))"
  using assms
proof (induction xs arbitrary: i st rs st')
  case Nil
  then show ?case by simp
next
  case (Cons psd rest)
  obtain out exc st1 where a: "run_item com jb total_n i psd st = ((out, exc), st1)"
    by (metis prod.exhaust)
  obtain rs1 st2 where b: "run_items com jb total_n (i + 1) rest st1 = (rs1, st2)"
    by (metis prod.exhaust)
  from Cons.prems a b have eq: "rs = (out, exc) # rs1" "st' = st2"
    by simp_all
  have u: "[i..<i + length (psd # rest)] = i # [i + 1..<i + 1 + length rest]"
    by (simp add: upt_rec)
  from Cons.IH [OF b] run_item_traces [OF a] show ?case
    unfolding eq u by simp
qed


lemma run_success:
  assumes "Dispatch com (ps_state st) = (None, ps1)" and "run com jb st = (rs, st')"
  shows "length rs = length (psds jb) \<and>
     signals st' = signals st
       @ [Log (detected_line (length (psds jb)))]
       @ concat (map (item_signals (length (psds jb))) (zip [1..<1 + length (psds jb)] rs))
       @ [Finished] \<and>
     calls st' = calls st @ [DispatchCall] @ concat (map (item_calls (art jb)) (zip (psds jb) rs))"
proof -
  define st1 where "st1 = st\<lparr>calls := calls st @ [DispatchCall], ps_state := ps1\<rparr>"
  define st2 where "st2 = emit (Log (detected_line (length (psds jb)))) st1"
  obtain rs3 st3 where r: "run_items com jb (length (psds jb)) 1 (psds jb) st2 = (rs3, st3)"
    by (metis prod.exhaust)
  from assms(1) have d: "dispatch com st = (None, st1)"
    by (simp add: dispatch_eq st1_def)
  from assms(2) have "rs = rs3" "st' = emit Finished st3"
    using r unfolding run_def d st2_def by (simp_all add: Let_def)
  with run_items_traces [OF r] show ?thesis
    by (simp add: emit_def st2_def st1_def)
qed

lemma run_failure:
  assumes "Dispatch com (ps_state st) = (Some e, ps1)"
  shows "run com jb st =
     ([], st\<lparr>signals := signals st @ map Log (not_found_lines e) @ [Error ''Photoshop not found''],
            calls := calls st @ [DispatchCall], ps_state := ps1\<rparr>)"
  using assms by (simp add: run_def dispatch_eq emit_all_signals)

lemma progress_values_append: "progress_values (xs @ ys) = progress_values xs @ progress_values ys"
  by (induction xs rule: progress_values.induct) simp_all

lemma progress_values_item: "progress_values (item_signals total_n (i, out, exc)) = [progress_percent i total_n]"
  by (cases exc) (simp_all add: item_signals_def)

lemma progress_values_items:
  "length rs = length is \<Longrightarrow>
   progress_values (concat (map (item_signals total_n) (zip is rs))) = map (\<lambda>i. progress_percent i total_n) is"
proof (induction "is" arbitrary: rs)
  case Nil
  then show ?case by simp
next
  case (Cons i "is")
  then obtain r rs' where rs: "rs = r # rs'" "length rs' = length is"
    by (cases rs) auto
  obtain out exc where r: "r = (out, exc)" by (cases r)
  from Cons.IH [OF rs(2)] show ?case
    by (simp add: rs r progress_values_append progress_values_item)
qed

lemma finished_not_in_items:
  "Finished \<notin> set (concat (map (item_signals total_n) xs)) \<and>
   (\<forall>m. Error m \<notin> set (concat (map (item_signals total_n) xs)))"
  by (induction xs) (auto simp: item_signals_def split: option.splits)


text \<open>
  What each pass did, said through \<open>render\<close> itself. \<open>sts\<close> are the states in which the
  passes start, the last one the state after the last pass: the output path of a pass is
  the free name found on the disk as it is then, the exception of the pass is the one
  \<open>render\<close> gives for that template in that state, and the next pass starts from what
  \<open>render\<close> left, with the error line, if any, and the progress value emitted.
\<close>

lemma run_item_render:
  assumes "run_item com jb total_n i psd st = ((out, exc), st')"
  shows "out = get_unique_filepath (on_disk st)
             (os_path_join (out_dir jb) (fst (os_path_splitext (os_path_basename psd)) @ ''.jpg'')) \<and>
     (\<exists>s1. render com psd (art jb) out (emit (Log (processing_line (os_path_basename out))) st) = (exc, s1) \<and>
        st' = emit (Progress (progress_percent i total_n))
                (case exc of Some e \<Rightarrow> emit (Log (error_line (os_path_basename out) e)) s1 | None \<Rightarrow> s1))"
proof -
  define name where "name = fst (os_path_splitext (os_path_basename psd)) @ ''.jpg''"
  define o1 where "o1 = get_unique_filepath (on_disk st) (os_path_join (out_dir jb) name)"
  define st1 where "st1 = emit (Log (processing_line (os_path_basename o1))) st"
  obtain e st2 where r: "render com psd (art jb) o1 st1 = (e, st2)"
    by (cases "render com psd (art jb) o1 st1")
  from assms r have oe: "out = o1" "exc = e"
    unfolding run_item_def Let_def name_def [symmetric] o1_def [symmetric] st1_def [symmetric]
    by simp_all
  from assms r have s: "st' = emit (Progress (progress_percent i total_n))
      (case e of Some x \<Rightarrow> emit (Log (error_line (os_path_basename o1) x)) st2 | None \<Rightarrow> st2)"
    unfolding run_item_def Let_def name_def [symmetric] o1_def [symmetric] st1_def [symmetric]
    by auto
  show ?thesis
    using r s unfolding oe o1_def [symmetric] name_def [symmetric] st1_def [symmetric]
    by (simp add: o1_def name_def)
qed

lemma run_items_chain:
  assumes "run_items com jb total_n i xs st = (rs, st')"
  shows "\<exists>sts. length sts = Suc (length xs) \<and> sts ! 0 = st \<and> sts ! length xs = st' \<and>
     (\<forall>j<length xs.
        fst (rs ! j) = get_unique_filepath (on_disk (sts ! j))
            (os_path_join (out_dir jb) (fst (os_path_splitext (os_path_basename (xs ! j))) @ ''.jpg'')) \<and>
        (\<exists>s1. render com (xs ! j) (art jb) (fst (rs ! j))
                 (emit (Log (processing_line (os_path_basename (fst (rs ! j))))) (sts ! j)) = (snd (rs ! j), s1) \<and>
           sts ! Suc j = emit (Progress (progress_percent (i + j) total_n))
                (case snd (rs ! j) of
                   Some e \<Rightarrow> emit (Log (error_line (os_path_basename (fst (rs ! j))) e)) s1
                 | None \<Rightarrow> s1)))"
  using assms
proof (induction xs arbitrary: i st rs st')
  case Nil
  then show ?case by (intro exI [of _ "[st]"]) simp
next
  case (Cons psd rest)
  obtain out exc st1 where a: "run_item com jb total_n i psd st = ((out, exc), st1)"
    by (metis prod.exhaust)
  obtain rs1 st2 where b: "run_items com jb total_n (i + 1) rest st1 = (rs1, st2)"
    by (metis prod.exhaust)
  from Cons.prems a b have eq: "rs = (out, exc) # rs1" "st' = st2"
    by simp_all
  from Cons.IH [OF b] obtain sts where sts: "length sts = Suc (length rest)" "sts ! 0 = st1"
    "sts ! length rest = st2"
    and step: "\<And>j. j < length rest \<Longrightarrow>
        fst (rs1 ! j) = get_unique_filepath (on_disk (sts ! j))
            (os_path_join (out_dir jb) (fst (os_path_splitext (os_path_basename (rest ! j))) @ ''.jpg'')) \<and>
        (\<exists>s1. render com (rest ! j) (art jb) (fst (rs1 ! j))
                 (emit (Log (processing_line (os_path_basename (fst (rs1 ! j))))) (sts ! j)) = (snd (rs1 ! j), s1) \<and>
           sts ! Suc j = emit (Progress (progress_percent (i + 1 + j) total_n))
                (case snd (rs1 ! j) of
                   Some e \<Rightarrow> emit (Log (error_line (os_path_basename (fst (rs1 ! j))) e)) s1
                 | None \<Rightarrow> s1))"
    by blast
  from run_item_render [OF a] obtain s0 where
    f1: "out = get_unique_filepath (on_disk st)
             (os_path_join (out_dir jb) (fst (os_path_splitext (os_path_basename psd)) @ ''.jpg''))"
    and f2: "render com psd (art jb) out (emit (Log (processing_line (os_path_basename out))) st) = (exc, s0)"
    and f3: "st1 = emit (Progress (progress_percent i total_n))
                (case exc of Some e \<Rightarrow> emit (Log (error_line (os_path_basename out) e)) s0 | None \<Rightarrow> s0)"
    by blast
  have r0: "rs ! 0 = (out, exc)" "(psd # rest) ! 0 = psd" "(st # sts) ! 0 = st" "(st # sts) ! Suc 0 = st1"
    using eq sts(2) by simp_all
  show ?case
  proof (intro exI [of _ "st # sts"] conjI allI impI)
    show "length (st # sts) = Suc (length (psd # rest))"
      using sts(1) by simp
    show "(st # sts) ! 0 = st" by simp
    show "(st # sts) ! length (psd # rest) = st'"
      using sts(3) eq(2) by simp
  next
    fix j assume j: "j < length (psd # rest)"
    show "fst (rs ! j) = get_unique_filepath (on_disk ((st # sts) ! j))
            (os_path_join (out_dir jb) (fst (os_path_splitext (os_path_basename ((psd # rest) ! j))) @ ''.jpg''))"
    proof (cases j)
      case 0
      show ?thesis
        unfolding 0 r0 fst_conv by (rule f1)
    next
      case (Suc m)
      with j step [of m] show ?thesis by (simp add: eq)
    qed
    show "\<exists>s1. render com ((psd # rest) ! j) (art jb) (fst (rs ! j))
                 (emit (Log (processing_line (os_path_basename (fst (rs ! j))))) ((st # sts) ! j)) = (snd (rs ! j), s1) \<and>
           (st # sts) ! Suc j = emit (Progress (progress_percent (i + j) total_n))
                (case snd (rs ! j) of
                   Some e \<Rightarrow> emit (Log (error_line (os_path_basename (fst (rs ! j))) e)) s1
                 | None \<Rightarrow> s1)"
    proof (cases j)
      case 0
      show ?thesis
        unfolding 0 r0 fst_conv snd_conv add_0_right using f2 f3 by blast
    next
      case (Suc m)
      with j have m: "m < length rest" by simp
      have rm: "rs ! Suc m = rs1 ! m" "(psd # rest) ! Suc m = rest ! m" "(st # sts) ! Suc m = sts ! m"
        "(st # sts) ! Suc (Suc m) = sts ! Suc m" "i + Suc m = i + 1 + m"
        by (simp_all add: eq)
      show ?thesis
        unfolding Suc rm using step [OF m] by blast
    qed
  qed
qed

lemma run_chain:
  assumes "Dispatch com (ps_state st) = (None, ps1)" and "run com jb st = (rs, st')"
  shows "\<exists>sts. length sts = Suc (length (psds jb)) \<and>
     sts ! 0 = emit (Log (detected_line (length (psds jb))))
                 (st\<lparr>calls := calls st @ [DispatchCall], ps_state := ps1\<rparr>) \<and>
     st' = emit Finished (sts ! length (psds jb)) \<and>
     (\<forall>j<length (psds jb).
        fst (rs ! j) = get_unique_filepath (on_disk (sts ! j))
            (os_path_join (out_dir jb) (fst (os_path_splitext (os_path_basename (psds jb ! j))) @ ''.jpg'')) \<and>
        (\<exists>s1. render com (psds jb ! j) (art jb) (fst (rs ! j))
                 (emit (Log (processing_line (os_path_basename (fst (rs ! j))))) (sts ! j)) = (snd (rs ! j), s1) \<and>
           sts ! Suc j = emit (Progress (progress_percent (Suc j) (length (psds jb))))
                (case snd (rs ! j) of
                   Some e \<Rightarrow> emit (Log (error_line (os_path_basename (fst (rs ! j))) e)) s1
                 | None \<Rightarrow> s1)))"
proof -
  define st1 where "st1 = st\<lparr>calls := calls st @ [DispatchCall], ps_state := ps1\<rparr>"
  define st2 where "st2 = emit (Log (detected_line (length (psds jb)))) st1"
  obtain rs3 st3 where r: "run_items com jb (length (psds jb)) 1 (psds jb) st2 = (rs3, st3)"
    by (metis prod.exhaust)
  from assms(1) have d: "dispatch com st = (None, st1)"
    by (simp add: dispatch_eq st1_def)
  from assms(2) have e: "rs = rs3" "st' = emit Finished st3"
    using r unfolding run_def d st2_def by (simp_all add: Let_def)
  from r e(1) have r': "run_items com jb (length (psds jb)) 1 (psds jb) st2 = (rs, st3)"
    by simp
  from run_items_chain [OF r'] obtain sts where
    c1: "length sts = Suc (length (psds jb))" and c2: "sts ! 0 = st2" and c3: "sts ! length (psds jb) = st3"
    and c4: "\<forall>j<length (psds jb).
        fst (rs ! j) = get_unique_filepath (on_disk (sts ! j))
            (os_path_join (out_dir jb) (fst (os_path_splitext (os_path_basename (psds jb ! j))) @ ''.jpg'')) \<and>
        (\<exists>s1. render com (psds jb ! j) (art jb) (fst (rs ! j))
                 (emit (Log (processing_line (os_path_basename (fst (rs ! j))))) (sts ! j)) = (snd (rs ! j), s1) \<and>
           sts ! Suc j = emit (Progress (progress_percent (1 + j) (length (psds jb))))
                (case snd (rs ! j) of
                   Some e \<Rightarrow> emit (Log (error_line (os_path_basename (fst (rs ! j))) e)) s1
                 | None \<Rightarrow> s1))"
    by blast
  show ?thesis
  proof (intro exI [of _ sts] conjI)
    show "length sts = Suc (length (psds jb))" by (rule c1)
    show "sts ! 0 = emit (Log (detected_line (length (psds jb))))
                 (st\<lparr>calls := calls st @ [DispatchCall], ps_state := ps1\<rparr>)"
      using c2 by (simp add: st2_def st1_def)
    show "st' = emit Finished (sts ! length (psds jb))"
      using c3 e(2) by simp
    show "\<forall>j<length (psds jb).
        fst (rs ! j) = get_unique_filepath (on_disk (sts ! j))
            (os_path_join (out_dir jb) (fst (os_path_splitext (os_path_basename (psds jb ! j))) @ ''.jpg'')) \<and>
        (\<exists>s1. render com (psds jb ! j) (art jb) (fst (rs ! j))
                 (emit (Log (processing_line (os_path_basename (fst (rs ! j))))) (sts ! j)) = (snd (rs ! j), s1) \<and>
           sts ! Suc j = emit (Progress (progress_percent (Suc j) (length (psds jb))))
                (case snd (rs ! j) of
                   Some e \<Rightarrow> emit (Log (error_line (os_path_basename (fst (rs ! j))) e)) s1
                 | None \<Rightarrow> s1))"
      using c4 by (simp only: plus_1_eq_Suc)
  qed
qed

subsection \<open>Sample runs\<close>

text \<open>
  A job of three templates; a Photoshop that cannot be reached; and one that renders
  every template but \<open>lib/b.psd\<close>, writing the output file of each render that succeeds.
\<close>

definition three_templates :: job where
  "three_templates = \<lparr>psds = [''lib/a.psd'', ''lib/b.psd'', ''lib/c.psd''], art = ''art.png'', out_dir = ''out/''\<rparr>"

definition photoshop_missing :: "unit photoshop" where
  "photoshop_missing =
     \<lparr>Dispatch = (\<lambda>p. (Some (ComError ''Invalid class string''), p)),
      SetVisible = (\<lambda>p. (None, p)),
      DoJavaScript = (\<lambda>paths p d. (None, p, d))\<rparr>"

definition photoshop_failing_on_b :: "unit photoshop" where
  "photoshop_failing_on_b =
     \<lparr>Dispatch = (\<lambda>p. (None, p)),
      SetVisible = (\<lambda>p. (None, p)),
      DoJavaScript = (\<lambda>(psd, art_path, out) p d.
        if psd = ''lib/b.psd'' then (Some (ComError ''General Photoshop error''), p, d)
        else (None, p, finsert out d))\<rparr>"

definition idle :: "unit worker_state" where
  "idle = \<lparr>signals = [], calls = [], ps_state = (), on_disk = {||}\<rparr>"

text \<open>The value the specification states: \<open>round(itemsProcessed / totalItems * 100)\<close>.\<close>

definition round_percent :: "nat \<Rightarrow> nat \<Rightarrow> int" where
  "round_percent i total_n = round (of_nat i / of_nat total_n * 100 :: rat)"

lemma run_failing_on_b:
  "run photoshop_failing_on_b three_templates idle =
     ([(''out/a.jpg'', None), (''out/b.jpg'', Some (ComError ''General Photoshop error'')), (''out/c.jpg'', None)],
      \<lparr>signals =
         [Log (detected_line 3),
          Log (processing_line ''a.jpg''), Progress 33,
          Log (processing_line ''b.jpg''), Log (error_line ''b.jpg'' (ComError ''General Photoshop error'')), Progress 66,
          Log (processing_line ''c.jpg''), Progress 100,
          Finished],
       calls =
         [DispatchCall,
          RenderCall ''lib/a.psd'' ''art.png'' ''out/a.jpg'', DispatchCall,
          RenderCall ''lib/b.psd'' ''art.png'' ''out/b.jpg'', DispatchCall,
          RenderCall ''lib/c.psd'' ''art.png'' ''out/c.jpg'', DispatchCall],
       ps_state = (),
       on_disk = {|''out/a.jpg'', ''out/c.jpg''|}\<rparr>)"
proof -
  let ?com = photoshop_failing_on_b and ?jb = three_templates
  let ?s0 = "\<lparr>signals = [Log (detected_line 3)], calls = [DispatchCall], ps_state = (), on_disk = {||}\<rparr>"
  let ?s1 = "\<lparr>signals = [Log (detected_line 3), Log (processing_line ''a.jpg''), Progress 33],
      calls = [DispatchCall, RenderCall ''lib/a.psd'' ''art.png'' ''out/a.jpg'', DispatchCall],
      ps_state = (), on_disk = {|''out/a.jpg''|}\<rparr>"
  let ?s2 = "\<lparr>signals = [Log (detected_line 3), Log (processing_line ''a.jpg''), Progress 33,
        Log (processing_line ''b.jpg''), Log (error_line ''b.jpg'' (ComError ''General Photoshop error'')), Progress 66],
      calls = [DispatchCall, RenderCall ''lib/a.psd'' ''art.png'' ''out/a.jpg'', DispatchCall,
        RenderCall ''lib/b.psd'' ''art.png'' ''out/b.jpg'', DispatchCall],
      ps_state = (), on_disk = {|''out/a.jpg''|}\<rparr>"
  let ?s3 = "\<lparr>signals = [Log (detected_line 3), Log (processing_line ''a.jpg''), Progress 33,
        Log (processing_line ''b.jpg''), Log (error_line ''b.jpg'' (ComError ''General Photoshop error'')), Progress 66,
        Log (processing_line ''c.jpg''), Progress 100],
      calls = [DispatchCall, RenderCall ''lib/a.psd'' ''art.png'' ''out/a.jpg'', DispatchCall,
        RenderCall ''lib/b.psd'' ''art.png'' ''out/b.jpg'', DispatchCall,
        RenderCall ''lib/c.psd'' ''art.png'' ''out/c.jpg'', DispatchCall],
      ps_state = (), on_disk = {|''out/a.jpg'', ''out/c.jpg''|}\<rparr>"
  have a: "run_item ?com ?jb 3 1 ''lib/a.psd'' ?s0 = ((''out/a.jpg'', None), ?s1)"
    by code_simp
  have b: "run_item ?com ?jb 3 (1 + 1) ''lib/b.psd'' ?s1 = ((''out/b.jpg'', Some (ComError ''General Photoshop error'')), ?s2)"
    by code_simp
  have c: "run_item ?com ?jb 3 (1 + 1 + 1) ''lib/c.psd'' ?s2 = ((''out/c.jpg'', None), ?s3)"
    by code_simp
  have items: "run_items ?com ?jb 3 1 [''lib/a.psd'', ''lib/b.psd'', ''lib/c.psd''] ?s0 =
      ([(''out/a.jpg'', None), (''out/b.jpg'', Some (ComError ''General Photoshop error'')), (''out/c.jpg'', None)], ?s3)"
    by (simp only: run_items.simps a b c prod.case)
  have p: "psds ?jb = [''lib/a.psd'', ''lib/b.psd'', ''lib/c.psd'']"
    and n: "length [''lib/a.psd'', ''lib/b.psd'', ''lib/c.psd''] = 3"
    by (simp_all add: three_templates_def)
  have d: "dispatch ?com idle = (None, \<lparr>signals = [], calls = [DispatchCall], ps_state = (), on_disk = {||}\<rparr>)"
    by (simp add: dispatch_def idle_def photoshop_failing_on_b_def)
  have e0: "emit (Log (detected_line 3)) \<lparr>signals = [], calls = [DispatchCall], ps_state = (), on_disk = {||}\<rparr> = ?s0"
    by (simp add: emit_def)
  have e1: "emit Finished ?s3 = ?s3\<lparr>signals := signals ?s3 @ [Finished]\<rparr>"
    by (simp add: emit_def)
  show ?thesis
    unfolding run_def d by (simp only: option.case prod.case Let_def n p e0 items e1) simp
qed


lemma run_missing:
  "run photoshop_missing three_templates idle =
     ([], \<lparr>signals = map Log (not_found_lines (ComError ''Invalid class string'')) @ [Error ''Photoshop not found''],
           calls = [DispatchCall], ps_state = (), on_disk = {||}\<rparr>)"
proof -
  have d: "Dispatch photoshop_missing (ps_state idle) = (Some (ComError ''Invalid class string''), ())"
    by (simp add: photoshop_missing_def)
  show ?thesis
    unfolding run_failure [OF d] by (simp add: idle_def)
qed

subsection \<open>The claims about the pipeline\<close>

text \<open>
  C2, as amended. In a run that finds Photoshop, one progress value is emitted per
  template, in order, and the value after the \<open>i\<close>-th template is
  \<open>int((i / total) * 100)\<close>: the double product cut off towards zero, not rounded. For
  three templates the values are 33, 66 and 100.
\<close>

theorem run_progress_is_truncated_percentage:
  assumes "Dispatch com (ps_state st) = (None, ps1)" and "run com jb st = (results, st')"
  shows "progress_values (drop (length (signals st)) (signals st')) =
       map (\<lambda>i. progress_percent i (length (psds jb))) [1..<1 + length (psds jb)] \<and>
     (length (psds jb) = 3 \<longrightarrow>
       progress_values (drop (length (signals st)) (signals st')) = [33, 66, 100])"
proof -
  let ?n = "length (psds jb)"
  from run_success [OF assms] have l0: "length results = ?n"
    and s0: "signals st' = signals st @ [Log (detected_line ?n)]
      @ concat (map (item_signals ?n) (zip [1..<1 + ?n] results)) @ [Finished]"
    by blast+
  have dr: "drop (length xs) (xs @ zs) = zs" for xs zs :: "signal list"
    by simp
  have l: "length results = length [1..<1 + ?n]"
    by (simp only: length_upt add_diff_cancel_left' l0)
  have s: "drop (length (signals st)) (signals st') =
      [Log (detected_line ?n)] @ concat (map (item_signals ?n) (zip [1..<1 + ?n] results)) @ [Finished]"
    unfolding s0 dr ..
  have v: "progress_values (drop (length (signals st)) (signals st')) =
      map (\<lambda>i. progress_percent i ?n) [1..<1 + ?n]"
    unfolding s using progress_values_items [OF l] by (simp add: progress_values_append)
  have three: "map (\<lambda>i. progress_percent i 3) [1..<1 + 3] = [33, 66, 100]"
    by code_simp
  show ?thesis
  proof (intro conjI impI)
    show "progress_values (drop (length (signals st)) (signals st')) =
        map (\<lambda>i. progress_percent i ?n) [1..<1 + ?n]"
      by (rule v)
  next
    assume "?n = 3"
    with v three show "progress_values (drop (length (signals st)) (signals st')) = [33, 66, 100]"
      by metis
  qed
qed

theorem run_progress_is_truncated_percentage_witness:
  "progress_values (signals (snd (run photoshop_failing_on_b three_templates idle))) = [33, 66, 100]"
proof -
  have d: "Dispatch photoshop_failing_on_b (ps_state idle) = (None, ())"
    by (simp add: photoshop_failing_on_b_def)
  have r: "run photoshop_failing_on_b three_templates idle =
      (fst (run photoshop_failing_on_b three_templates idle), snd (run photoshop_failing_on_b three_templates idle))"
    by simp
  have n: "length (psds three_templates) = 3" and z: "length (signals idle) = 0"
    by (simp_all add: three_templates_def idle_def)
  from run_progress_is_truncated_percentage [OF d r] n
  have "progress_values (drop (length (signals idle))
      (signals (snd (run photoshop_failing_on_b three_templates idle)))) = [33, 66, 100]"
    by blast
  then show ?thesis
    by (simp only: z drop_0)
qed

theorem progress_is_not_rounded:
  "progress_values (signals (snd (run photoshop_failing_on_b three_templates idle))) \<noteq> [33, 67, 100] \<and>
   progress_percent 2 3 = 66 \<and> round_percent 2 3 = 67"
proof -
  have "progress_percent 2 3 = 66" "round_percent 2 3 = 67"
    by code_simp+
  then show ?thesis by (simp add: run_failing_on_b)
qed

text \<open>
  C3. When the check for Photoshop raises, the run emits the error report and one
  \<open>error\<close> signal, and returns: no entry into \<open>render\<close>, no outcome of any template, no
  \<open>progress\<close> and no \<open>finished\<close> signal, the disk untouched. The only call made is the one
  check.
\<close>

theorem run_aborts_when_photoshop_is_missing:
  assumes "Dispatch com (ps_state st) = (Some e, ps1)" and "run com jb st = (results, st')"
  shows "results = [] \<and>
     calls st' = calls st @ [DispatchCall] \<and>
     signals st' = signals st @ map Log (not_found_lines e) @ [Error ''Photoshop not found''] \<and>
     on_disk st' = on_disk st"
  using assms(2) unfolding run_failure [OF assms(1)] by auto

theorem run_aborts_when_photoshop_is_missing_witness:
  "fst (run photoshop_missing three_templates idle) = [] \<and>
   calls (snd (run photoshop_missing three_templates idle)) = [DispatchCall] \<and>
   signals (snd (run photoshop_missing three_templates idle)) =
     map Log (not_found_lines (ComError ''Invalid class string'')) @ [Error ''Photoshop not found'']"
proof -
  have d: "Dispatch photoshop_missing (ps_state idle) = (Some (ComError ''Invalid class string''), ())"
    by (simp add: photoshop_missing_def)
  have r: "run photoshop_missing three_templates idle =
      (fst (run photoshop_missing three_templates idle), snd (run photoshop_missing three_templates idle))"
    by simp
  have "signals idle = []" "calls idle = []"
    by (simp_all add: idle_def)
  with run_aborts_when_photoshop_is_missing [OF d r] show ?thesis by simp
qed

text \<open>
  C4. In a run that finds Photoshop every template gets its pass, in the order of the
  job and whatever the earlier renders did. \<open>sts\<close> are the states in which the passes
  start. In its pass a template is rendered once, to the free name found for it, and
  what is recorded for it is exactly what that call of \<open>render\<close> gave: the exception it
  raised, which is caught and logged against the output name, or none. The next pass
  starts from the state the render left, after the progress value. \<open>finished\<close> is
  emitted once, as the last signal after the last pass, and \<open>error\<close> never.
\<close>

theorem run_isolates_failures_and_finishes:
  assumes "Dispatch com (ps_state st) = (None, ps1)" and "run com jb st = (results, st')"
  shows "length results = length (psds jb) \<and>
     (\<exists>sts. length sts = Suc (length (psds jb)) \<and>
        sts ! 0 = emit (Log (detected_line (length (psds jb))))
                    (st\<lparr>calls := calls st @ [DispatchCall], ps_state := ps1\<rparr>) \<and>
        st' = emit Finished (sts ! length (psds jb)) \<and>
        (\<forall>i<length (psds jb).
           fst (results ! i) = get_unique_filepath (on_disk (sts ! i))
               (os_path_join (out_dir jb) (fst (os_path_splitext (os_path_basename (psds jb ! i))) @ ''.jpg'')) \<and>
           (\<exists>s1. render com (psds jb ! i) (art jb) (fst (results ! i))
                    (emit (Log (processing_line (os_path_basename (fst (results ! i))))) (sts ! i))
                  = (snd (results ! i), s1) \<and>
              sts ! Suc i = emit (Progress (progress_percent (Suc i) (length (psds jb))))
                   (case snd (results ! i) of
                      Some e \<Rightarrow> emit (Log (error_line (os_path_basename (fst (results ! i))) e)) s1
                    | None \<Rightarrow> s1)))) \<and>
     calls st' = calls st @ [DispatchCall] @ concat (map (item_calls (art jb)) (zip (psds jb) results)) \<and>
     signals st' = signals st @ [Log (detected_line (length (psds jb)))]
       @ concat (map (item_signals (length (psds jb))) (zip [1..<1 + length (psds jb)] results))
       @ [Finished] \<and>
     count_list (drop (length (signals st)) (signals st')) Finished = 1 \<and>
     last (signals st') = Finished \<and>
     (\<forall>m. Error m \<notin> set (drop (length (signals st)) (signals st')))"
proof -
  let ?n = "length (psds jb)"
  let ?items = "concat (map (item_signals ?n) (zip [1..<1 + ?n] results))"
  from run_success [OF assms] have l: "length results = ?n"
    and c: "calls st' = calls st @ [DispatchCall] @ concat (map (item_calls (art jb)) (zip (psds jb) results))"
    and s: "signals st' = signals st @ [Log (detected_line ?n)] @ ?items @ [Finished]"
    by blast+
  have d: "drop (length (signals st)) (signals st') = [Log (detected_line ?n)] @ ?items @ [Finished]"
    by (simp add: s)
  from finished_not_in_items [of ?n "zip [1..<1 + ?n] results"]
  have f: "Finished \<notin> set ?items" and e: "\<forall>m. Error m \<notin> set ?items"
    by blast+
  from f have "count_list ?items Finished = 0"
    by (simp add: count_list_0_iff)
  then have one: "count_list (drop (length (signals st)) (signals st')) Finished = 1"
    by (simp add: d)
  have la: "last (signals st') = Finished"
    by (simp add: s)
  from e have ne: "\<forall>m. Error m \<notin> set (drop (length (signals st)) (signals st'))"
    by (simp add: d)
  note ch = run_chain [OF assms]
  show ?thesis
    by (intro conjI) (rule l ch c s one la ne)+
qed

theorem run_isolates_failures_and_finishes_witness:
  "fst (run photoshop_failing_on_b three_templates idle) =
     [(''out/a.jpg'', None), (''out/b.jpg'', Some (ComError ''General Photoshop error'')), (''out/c.jpg'', None)] \<and>
   (\<exists>s s1. render photoshop_failing_on_b ''lib/b.psd'' ''art.png'' ''out/b.jpg'' s
              = (Some (ComError ''General Photoshop error''), s1)) \<and>
   count_list (signals (snd (run photoshop_failing_on_b three_templates idle))) Finished = 1 \<and>
   last (signals (snd (run photoshop_failing_on_b three_templates idle))) = Finished"
proof -
  let ?run = "run photoshop_failing_on_b three_templates idle"
  have d: "Dispatch photoshop_failing_on_b (ps_state idle) = (None, ())"
    by (simp add: photoshop_failing_on_b_def)
  have r: "?run = (fst ?run, snd ?run)"
    by simp
  have z: "length (signals idle) = 0"
    by (simp add: idle_def)
  have res: "fst ?run =
     [(''out/a.jpg'', None), (''out/b.jpg'', Some (ComError ''General Photoshop error'')), (''out/c.jpg'', None)]"
    by (simp only: run_failing_on_b fst_conv)
  have j: "psds three_templates ! 1 = ''lib/b.psd''" "art three_templates = ''art.png''"
    "(1::nat) < length (psds three_templates)"
    by (simp_all add: three_templates_def)
  have b: "fst (fst ?run ! 1) = ''out/b.jpg''" "snd (fst ?run ! 1) = Some (ComError ''General Photoshop error'')"
    by (simp_all add: res)
  note t = run_isolates_failures_and_finishes [OF d r]
  from t have "count_list (drop (length (signals idle)) (signals (snd ?run))) Finished = 1"
    and la: "last (signals (snd ?run)) = Finished"
    by blast+
  then have co: "count_list (signals (snd ?run)) Finished = 1"
    by (simp only: z drop_0)
  from t obtain sts where
    "\<forall>i<length (psds three_templates).
       (\<exists>s1. render photoshop_failing_on_b (psds three_templates ! i) (art three_templates) (fst (fst ?run ! i))
                (emit (Log (processing_line (os_path_basename (fst (fst ?run ! i))))) (sts ! i))
              = (snd (fst ?run ! i), s1))"
    by blast
  with j(3) have "\<exists>s1. render photoshop_failing_on_b (psds three_templates ! 1) (art three_templates) (fst (fst ?run ! 1))
                (emit (Log (processing_line (os_path_basename (fst (fst ?run ! 1))))) (sts ! 1))
              = (snd (fst ?run ! 1), s1)"
    by blast
  then have re: "\<exists>s s1. render photoshop_failing_on_b ''lib/b.psd'' ''art.png'' ''out/b.jpg'' s
              = (Some (ComError ''General Photoshop error''), s1)"
    unfolding j(1,2) b by blast
  from res re co la show ?thesis
    by blast
qed


end
